theory Spec2Isabelle
  imports Main "HOL-Library.Multiset"
begin

section \<open>The clusters manager of core/clustersmngr/factory.go\<close>

text \<open>
  The manager keeps the list of known clusters, three caches (namespaces per cluster,
  accessible namespaces per user and cluster, clients per user and cluster), a list of
  watchers and a handful of Prometheus counters. Each Go method becomes a function from
  the manager's state to a result and the new state. A Go pair \<open>(value, error)\<close> is a
  sum \<open>error + value\<close>, a nilable pointer is an \<open>option\<close>.

  Logging through \<open>cf.log\<close> is not part of the model, and neither is the expiry of the two
  TTL caches: an entry that has aged out is an entry that is absent from the map.
\<close>

subsection \<open>Values\<close>

text \<open>\<open>client.Client\<close>, a clientset and \<open>v1.Namespace\<close> are opaque handles here.\<close>

type_synonym Client = nat
type_synonym Clientset = nat
type_synonym Namespace = string

text \<open>\<open>auth.UserPrincipal\<close>: factory.go reads and writes the field \<open>ID\<close> only.\<close>

record UserPrincipal =
  ID :: string
  Groups :: "string list"

text \<open>
  Errors. \<open>New\<close> is \<open>errors.New\<close> (and \<open>fmt.Errorf\<close> without \<open>%w\<close>), \<open>Wrap p e\<close> is
  \<open>fmt.Errorf(p + "%w", e)\<close>, \<open>WrapCluster e n\<close> is \<open>fmt.Errorf("%w, cluster: %v", e, n)\<close>,
  \<open>ClientError\<close> is the struct of that name and \<open>MultiError\<close> is \<open>*multierror.Error\<close>
  with its \<open>Errors\<close> slice.
\<close>

datatype error =
    New string
  | Wrap string error
  | WrapCluster error string
  | ClientError string error
  | MultiError "error list"

text \<open>
  A value of the type \<open>cluster.Cluster\<close>, which is declared outside factory.go: its name
  and the three client factories factory.go calls, each with the result the call
  produces.
\<close>

record cluster =
  GetName :: string
  GetServerClient :: "error + Client"
  GetUserClient :: "UserPrincipal \<Rightarrow> error + Client"
  GetUserClientset :: "UserPrincipal \<Rightarrow> error + Clientset"

text \<open>\<open>ClusterListUpdate\<close> and the channel \<open>Updates\<close> of a \<open>ClustersWatcher\<close>.\<close>

record ClusterListUpdate =
  Added :: "cluster list"
  Removed :: "cluster list"

record chan =
  capacity :: nat
  buffer :: "ClusterListUpdate list"
  closed :: bool

text \<open>
  What a statement that may block or panic does: it completes with a value, it blocks
  (a send on a full channel, a receive on an empty open one), or it panics.
\<close>

datatype 'a exec = Returns 'a | Blocks | Panics

subsection \<open>The manager\<close>

text \<open>
  The struct \<open>clustersManager\<close> together with the package-level metrics. Watchers are
  pointers: \<open>watchers\<close> lists their addresses, \<open>Updates\<close> maps an address to the state of
  that watcher's channel, and \<open>nextWatcher\<close> is the next address \<open>Subscribe\<close> allocates.
  The two user-scoped caches are keyed by user id and cluster name.
\<close>

record clustersManager =
  nsChecker :: "Clientset \<Rightarrow> Namespace list \<Rightarrow> error + Namespace list"
  clusters :: "cluster list"
  clustersHash :: string
  clustersNamespaces :: "string \<rightharpoonup> Namespace list"
  usersNamespaces :: "string \<times> string \<rightharpoonup> Namespace list"
  usersClients :: "string \<times> string \<rightharpoonup> Client"
  watchers :: "nat list"
  Updates :: "nat \<rightharpoonup> chan"
  nextWatcher :: nat
  opsUpdateClusters :: nat
  opsClustersCount :: nat
  opsUpdateNamespaces :: nat
  opsNamespacesCount :: "string \<rightharpoonup> nat"
  opsCreateServerClient :: "string \<Rightarrow> nat"
  opsCreateUserClient :: "string \<Rightarrow> nat"

subsection \<open>The caches and the registry\<close>

text \<open>
  Modelled from the spec: the types \<open>UsersClients\<close>, \<open>UsersNamespaces\<close>,
  \<open>ClustersNamespaces\<close> and \<open>Clusters\<close> are declared outside factory.go. Section 3 keys
  both user caches by (user id, cluster name); section 4.3 makes all three caches plain
  mappings with get, set and clear.
\<close>

definition UsersClients_Get ::
  "(string \<times> string \<rightharpoonup> Client) \<Rightarrow> UserPrincipal \<Rightarrow> string \<Rightarrow> Client option" where
  "UsersClients_Get cache user clusterName = cache (ID user, clusterName)"

definition UsersClients_Set ::
  "(string \<times> string \<rightharpoonup> Client) \<Rightarrow> UserPrincipal \<Rightarrow> string \<Rightarrow> Client \<Rightarrow>
     (string \<times> string \<rightharpoonup> Client)" where
  "UsersClients_Set cache user clusterName client = cache((ID user, clusterName) \<mapsto> client)"

subsection \<open>getOrCreateClient\<close>

text \<open>
  Lines 550 to 584. A nil user becomes the principal \<open>weave-gitops-server\<close> and sets
  \<open>isServer\<close>. A cache hit returns at once. Otherwise the counter of the chosen factory
  is incremented, the factory runs, and only a successful result is stored.
\<close>

definition serverPrincipal :: UserPrincipal where
  "serverPrincipal = \<lparr>ID = ''weave-gitops-server'', Groups = []\<rparr>"

definition getOrCreateClient ::
  "UserPrincipal option \<Rightarrow> cluster \<Rightarrow> clustersManager \<Rightarrow> (error + Client) \<times> clustersManager" where
  "getOrCreateClient user cl cf =
     (let isServer = (user = None);
          user' = (case user of None \<Rightarrow> serverPrincipal | Some u \<Rightarrow> u)
      in case UsersClients_Get (usersClients cf) user' (GetName cl) of
           Some client \<Rightarrow> (Inr client, cf)
         | None \<Rightarrow>
             (let (res, cf1) =
                    (if isServer
                     then (GetServerClient cl,
                           cf\<lparr>opsCreateServerClient :=
                                (opsCreateServerClient cf)
                                  (GetName cl := Suc (opsCreateServerClient cf (GetName cl)))\<rparr>)
                     else (GetUserClient cl user',
                           cf\<lparr>opsCreateUserClient :=
                                (opsCreateUserClient cf)
                                  (GetName cl := Suc (opsCreateUserClient cf (GetName cl)))\<rparr>))
              in case res of
                   Inl err \<Rightarrow>
                     (Inl (Wrap (''failed creating client for cluster='' @ GetName cl @ '': '') err),
                      cf1)
                 | Inr client \<Rightarrow>
                     (Inr client,
                      cf1\<lparr>usersClients :=
                            UsersClients_Set (usersClients cf1) user' (GetName cl) client\<rparr>)))"

subsection \<open>The clients pool and the aggregated client\<close>

text \<open>
  Modelled from the spec: \<open>NewClustersClientsPool\<close>, \<open>ClientsPool.Add\<close> and \<open>NewClient\<close>
  are declared outside factory.go. Section 4.4: \<open>Add\<close> registers a client under the
  cluster's name and fails if that name already has one. Section 3: the aggregated
  client holds the pool and the namespaces visible on each cluster. The spec does not
  give the text of the error.
\<close>

type_synonym ClientsPool = "string \<rightharpoonup> Client"

definition NewClustersClientsPool :: ClientsPool where
  "NewClustersClientsPool = Map.empty"

definition ClientsPool_Add :: "ClientsPool \<Rightarrow> Client \<Rightarrow> cluster \<Rightarrow> error + ClientsPool" where
  "ClientsPool_Add p client cl =
     (if p (GetName cl) \<noteq> None then Inl (New ''client already in pool'')
      else Inr (p(GetName cl \<mapsto> client)))"

record clustersClient =
  pool :: ClientsPool
  namespaces :: "string \<rightharpoonup> Namespace list"

definition NewClient :: "ClientsPool \<Rightarrow> (string \<rightharpoonup> Namespace list) \<Rightarrow> clustersClient" where
  "NewClient p ns = \<lparr>pool = p, namespaces = ns\<rparr>"

subsection \<open>multierror\<close>

text \<open>
  A \<open>*multierror.Error\<close> under construction is the list of its \<open>Errors\<close>; the nil pointer
  is the empty list, which \<open>ErrorOrNil\<close> does not tell apart from an empty \<open>Errors\<close>.
  \<open>multierror.Append\<close> flattens an argument that is itself a \<open>*multierror.Error\<close>.
\<close>

definition multierror_Append :: "error list \<Rightarrow> error \<Rightarrow> error list" where
  "multierror_Append result err =
     (case err of MultiError es \<Rightarrow> result @ es | _ \<Rightarrow> result @ [err])"

definition ErrorOrNil :: "error list \<Rightarrow> error option" where
  "ErrorOrNil result = (case result of [] \<Rightarrow> None | _ \<Rightarrow> Some (MultiError result))"

subsection \<open>Namespaces of a user\<close>

text \<open>
  Modelled from the spec: \<open>ClustersNamespaces.Get\<close>, \<open>UsersNamespaces.Set\<close> and
  \<open>UsersNamespaces.GetAll\<close> are declared outside factory.go. \<open>Get\<close> of a cluster with no
  entry is the nil slice; \<open>GetAll\<close> is the map from the name of each given cluster that
  has an entry for the user to that entry (sections 3 and 4.2: a pure cache read).
\<close>

definition ClustersNamespaces_Get :: "(string \<rightharpoonup> Namespace list) \<Rightarrow> string \<Rightarrow> Namespace list" where
  "ClustersNamespaces_Get m clusterName = (case m clusterName of None \<Rightarrow> [] | Some ns \<Rightarrow> ns)"

definition UsersNamespaces_Set ::
  "(string \<times> string \<rightharpoonup> Namespace list) \<Rightarrow> UserPrincipal \<Rightarrow> string \<Rightarrow> Namespace list \<Rightarrow>
     (string \<times> string \<rightharpoonup> Namespace list)" where
  "UsersNamespaces_Set cache user clusterName ns = cache((ID user, clusterName) \<mapsto> ns)"

definition UsersNamespaces_GetAll ::
  "(string \<times> string \<rightharpoonup> Namespace list) \<Rightarrow> UserPrincipal \<Rightarrow> cluster list \<Rightarrow>
     (string \<rightharpoonup> Namespace list)" where
  "UsersNamespaces_GetAll cache user cs =
     (\<lambda>n. if n \<in> GetName ` set cs then cache (ID user, n) else None)"

definition GetUserNamespaces :: "clustersManager \<Rightarrow> UserPrincipal \<Rightarrow> (string \<rightharpoonup> Namespace list)" where
  "GetUserNamespaces cf user = UsersNamespaces_GetAll (usersNamespaces cf) user (clusters cf)"

text \<open>
  Lines 505 to 533. One goroutine per cluster; \<open>userNsTask\<close> is the body of one. The
  goroutines finish in an order the scheduler chooses: \<open>sched\<close> maps the list the loop
  ranges over to the order in which the bodies take effect. The user is not nil on the
  path from \<open>userNsList\<close>.
\<close>

definition userNsTask :: "UserPrincipal \<Rightarrow> cluster \<Rightarrow> clustersManager \<Rightarrow> clustersManager" where
  "userNsTask user cl cf =
     (let clusterNs = ClustersNamespaces_Get (clustersNamespaces cf) (GetName cl)
      in case GetUserClientset cl user of
           Inl err \<Rightarrow> cf
         | Inr clientset \<Rightarrow>
             (case nsChecker cf clientset clusterNs of
                Inl err \<Rightarrow> cf
              | Inr filteredNs \<Rightarrow>
                  cf\<lparr>usersNamespaces :=
                       UsersNamespaces_Set (usersNamespaces cf) user (GetName cl) filteredNs\<rparr>))"

definition UpdateUserNamespaces ::
  "(cluster list \<Rightarrow> cluster list) \<Rightarrow> clustersManager \<Rightarrow> UserPrincipal \<Rightarrow> clustersManager" where
  "UpdateUserNamespaces sched cf user = fold (userNsTask user) (sched (clusters cf)) cf"

text \<open>Lines 539 to 548.\<close>

definition userNsList ::
  "(cluster list \<Rightarrow> cluster list) \<Rightarrow> clustersManager \<Rightarrow> UserPrincipal \<Rightarrow>
     (string \<rightharpoonup> Namespace list) \<times> clustersManager" where
  "userNsList sched cf user =
     (let userNamespaces = GetUserNamespaces cf user
      in if userNamespaces \<noteq> Map.empty then (userNamespaces, cf)
         else (let cf' = UpdateUserNamespaces sched cf user
               in (GetUserNamespaces cf' user, cf')))"

subsection \<open>The fan-out of GetImpersonatedClient and GetServerClient\<close>

text \<open>
  Lines 388 to 400 and 478 to 490: the body of one goroutine. It works on the manager,
  the shared pool and the error channel, whose capacity is the number of clusters, so
  that no send on it blocks. \<open>what\<close> is the prefix of the message for a failed creation.
  A body is taken as a whole: the bodies of clusters with different names work on
  different keys of the cache, different labels of the counters and different names of
  the pool.
\<close>

definition clientTask ::
  "UserPrincipal option \<Rightarrow> string \<Rightarrow> cluster \<Rightarrow>
     clustersManager \<times> ClientsPool \<times> error list \<Rightarrow> clustersManager \<times> ClientsPool \<times> error list" where
  "clientTask user what cl s =
     (case s of (cf, p, errChan) \<Rightarrow>
        (case getOrCreateClient user cl cf of
           (Inl err, cf') \<Rightarrow>
             (cf', p, errChan @ [ClientError (GetName cl) (Wrap what err)])
         | (Inr client, cf') \<Rightarrow>
             (case ClientsPool_Add p client cl of
                Inl err \<Rightarrow>
                  (cf', p,
                   errChan @
                     [ClientError (GetName cl) (Wrap ''failed adding cluster client to pool: '' err)])
              | Inr p' \<Rightarrow> (cf', p', errChan))))"

text \<open>
  The loop that starts the goroutines, \<open>wg.Wait()\<close> and the loop that drains the error
  channel into a \<open>multierror\<close>: the result is taken after every body has run.
\<close>

definition fanOut ::
  "(cluster list \<Rightarrow> cluster list) \<Rightarrow> UserPrincipal option \<Rightarrow> string \<Rightarrow> clustersManager \<Rightarrow>
     clustersManager \<times> ClientsPool \<times> error list" where
  "fanOut sched user what cf =
     (case fold (clientTask user what) (sched (clusters cf)) (cf, NewClustersClientsPool, []) of
        (cf', p, errChan) \<Rightarrow> (cf', p, fold (\<lambda>err result. multierror_Append result err) errChan []))"

text \<open>Lines 375 to 413. \<open>nsSched\<close> is the scheduler's choice inside \<open>UpdateUserNamespaces\<close>.\<close>

definition GetImpersonatedClient ::
  "(cluster list \<Rightarrow> cluster list) \<Rightarrow> (cluster list \<Rightarrow> cluster list) \<Rightarrow> clustersManager \<Rightarrow>
     UserPrincipal option \<Rightarrow> (clustersClient option \<times> error option) \<times> clustersManager" where
  "GetImpersonatedClient sched nsSched cf user =
     (case user of
        None \<Rightarrow> ((None, Some (New ''no user supplied'')), cf)
      | Some u \<Rightarrow>
          (case fanOut sched (Some u) ''failed creating user client to pool: '' cf of
             (cf1, p, result) \<Rightarrow>
               (case userNsList nsSched cf1 u of
                  (ns, cf2) \<Rightarrow> ((Some (NewClient p ns), ErrorOrNil result), cf2))))"

text \<open>Lines 469 to 503.\<close>

definition GetServerClient_mgr ::
  "(cluster list \<Rightarrow> cluster list) \<Rightarrow> clustersManager \<Rightarrow>
     (clustersClient option \<times> error option) \<times> clustersManager" where
  "GetServerClient_mgr sched cf =
     (case fanOut sched None ''failed creating server client to pool: '' cf of
        (cf1, p, result) \<Rightarrow>
          ((Some (NewClient p (clustersNamespaces cf1)), ErrorOrNil result), cf1))"

text \<open>
  Lines 415 to 446. \<open>var cl cluster.Cluster\<close> starts at the zero value of the type and
  the loop assigns the first cluster with the name. The declaration of \<open>cluster.Cluster\<close>
  is outside factory.go, so the zero value is the parameter \<open>zeroCluster\<close>: \<open>Some z\<close> for
  a struct type whose zero value is \<open>z\<close>, \<open>None\<close> for an interface type, whose zero value
  is nil, on which the method call of line 432 panics.
\<close>

definition GetImpersonatedClientForCluster ::
  "cluster option \<Rightarrow> (cluster list \<Rightarrow> cluster list) \<Rightarrow> clustersManager \<Rightarrow>
     UserPrincipal option \<Rightarrow> string \<Rightarrow>
     ((clustersClient option \<times> error option) \<times> clustersManager) exec" where
  "GetImpersonatedClientForCluster zeroCluster nsSched cf user clusterName =
     (case user of
        None \<Rightarrow> Returns ((None, Some (New ''no user supplied'')), cf)
      | Some u \<Rightarrow>
          (case (case find (\<lambda>c. GetName c = clusterName) (clusters cf) of
                   None \<Rightarrow> zeroCluster
                 | Some c \<Rightarrow> Some c) of
             None \<Rightarrow> Panics
           | Some cl \<Rightarrow>
               if GetName cl = [] then
                 Returns ((None, Some (New (''cluster not found: '' @ clusterName))), cf)
               else
                 (case getOrCreateClient (Some u) cl cf of
                    (Inl err, cf1) \<Rightarrow>
                      Returns ((None, Some (Wrap ''failed creating cluster client: '' err)), cf1)
                  | (Inr client, cf1) \<Rightarrow>
                      (case ClientsPool_Add NewClustersClientsPool client cl of
                         Inl err \<Rightarrow>
                           Returns
                             ((None, Some (Wrap ''failed adding cluster client to pool: '' err)),
                              cf1)
                       | Inr p \<Rightarrow>
                           (case userNsList nsSched cf1 u of
                              (ns, cf2) \<Rightarrow> Returns ((Some (NewClient p ns), None), cf2))))))"

text \<open>
  Lines 448 to 467. The method changes nothing in the manager, so it is a function of
  the state; the discovery handle is the clientset it comes from.
\<close>

definition GetImpersonatedDiscoveryClient ::
  "clustersManager \<Rightarrow> UserPrincipal option \<Rightarrow> string \<Rightarrow> Clientset option \<times> error option" where
  "GetImpersonatedDiscoveryClient cf user clusterName =
     (case user of
        None \<Rightarrow> (None, Some (New ''no user supplied''))
      | Some u \<Rightarrow>
          (case find (\<lambda>c. GetName c = clusterName) (clusters cf) of
             Some cl \<Rightarrow>
               (case GetUserClientset cl u of
                  Inl err \<Rightarrow> (None, Some (Wrap ''error creating client for cluster: '' err))
                | Inr clientset \<Rightarrow> (Some clientset, None))
           | None \<Rightarrow> (None, Some (New (''cluster not found: '' @ clusterName)))))"

subsection \<open>The cluster registry\<close>

text \<open>
  Modelled from the spec: \<open>Clusters.Set\<close> is declared outside factory.go. Section 4.1:
  it replaces the tracked list and returns the difference by name, the clusters of the
  new list whose name the old list does not have as added, and the clusters of the old
  list whose name the new list does not have as removed. The function here is the pair
  of lists; the caller stores the new list.

  \<open>Clusters.Hash\<close> is declared outside factory.go as well, and the spec fixes no digest:
  it is the parameter \<open>Hash\<close> of the functions that call it.
\<close>

definition Clusters_Set :: "cluster list \<Rightarrow> cluster list \<Rightarrow> cluster list \<times> cluster list" where
  "Clusters_Set new old =
     (filter (\<lambda>c. GetName c \<notin> GetName ` set old) new,
      filter (\<lambda>c. GetName c \<notin> GetName ` set new) old)"

subsection \<open>Watchers\<close>

text \<open>
  Line 204, the send \<open>cw.Updates <- ClusterListUpdate{...}\<close>: it panics on a closed
  channel, completes when the buffer has room, and blocks otherwise. A watcher with no
  channel is a nil pointer.
\<close>

definition Notify ::
  "nat \<Rightarrow> cluster list \<Rightarrow> cluster list \<Rightarrow> clustersManager \<Rightarrow> clustersManager exec" where
  "Notify cw addedClusters removedClusters cf =
     (case Updates cf cw of
        None \<Rightarrow> Panics
      | Some ch \<Rightarrow>
          if closed ch then Panics
          else if length (buffer ch) < capacity ch then
            Returns (cf\<lparr>Updates := (Updates cf)
                      (cw \<mapsto> ch\<lparr>buffer := buffer ch @
                                 [\<lparr>Added = addedClusters, Removed = removedClusters\<rparr>]\<rparr>)\<rparr>)
          else Blocks)"

text \<open>The receive \<open><-cw.Updates\<close> of a consumer; \<open>None\<close> is what a closed, drained channel gives.\<close>

definition receive :: "chan \<Rightarrow> (ClusterListUpdate option \<times> chan) exec" where
  "receive ch =
     (case buffer ch of
        u # us \<Rightarrow> Returns (Some u, ch\<lparr>buffer := us\<rparr>)
      | [] \<Rightarrow> if closed ch then Returns (None, ch) else Blocks)"

text \<open>Lines 230 to 235.\<close>

definition Subscribe :: "clustersManager \<Rightarrow> nat \<times> clustersManager" where
  "Subscribe cf =
     (let cw = nextWatcher cf
      in (cw, cf\<lparr>Updates := (Updates cf)(cw \<mapsto> \<lparr>capacity = 1, buffer = [], closed = False\<rparr>),
                 watchers := watchers cf @ [cw],
                 nextWatcher := Suc cw\<rparr>))"

text \<open>Lines 238 to 247.\<close>

definition RemoveWatcher :: "nat \<Rightarrow> clustersManager \<Rightarrow> clustersManager" where
  "RemoveWatcher cw cf = cf\<lparr>watchers := filter (\<lambda>w. cw \<noteq> w) (watchers cf)\<rparr>"

text \<open>Lines 208 to 211. \<open>close\<close> of a closed channel panics.\<close>

definition Unsubscribe :: "nat \<Rightarrow> clustersManager \<Rightarrow> clustersManager exec" where
  "Unsubscribe cw cf =
     (let cf1 = RemoveWatcher cw cf
      in case Updates cf1 cw of
           None \<Rightarrow> Panics
         | Some ch \<Rightarrow>
             if closed ch then Panics
             else Returns (cf1\<lparr>Updates := (Updates cf1)(cw \<mapsto> ch\<lparr>closed := True\<rparr>)\<rparr>))"

subsection \<open>UpdateClusters\<close>

text \<open>Lines 290 to 292, the loop over the watchers: it stops where a send does not complete.\<close>

fun notifyWatchers ::
  "nat list \<Rightarrow> cluster list \<Rightarrow> cluster list \<Rightarrow> clustersManager \<Rightarrow> clustersManager exec" where
  "notifyWatchers [] addedClusters removedClusters cf = Returns cf"
| "notifyWatchers (w # ws) addedClusters removedClusters cf =
     (case Notify w addedClusters removedClusters cf of
        Returns cf' \<Rightarrow> notifyWatchers ws addedClusters removedClusters cf'
      | Blocks \<Rightarrow> Blocks
      | Panics \<Rightarrow> Panics)"

text \<open>
  Lines 277 to 296. \<open>fetched\<close> is what \<open>cf.clustersFetcher.Fetch(ctx)\<close> returns in this
  call. The gauge \<open>opsClustersCount\<close> holds the length of the fetched list.
\<close>

definition UpdateClusters ::
  "(error + cluster list) \<Rightarrow> clustersManager \<Rightarrow> (error option \<times> clustersManager) exec" where
  "UpdateClusters fetched cf =
     (case fetched of
        Inl err \<Rightarrow> Returns (Some (Wrap ''failed to fetch clusters: '' err), cf)
      | Inr cs \<Rightarrow>
          (case Clusters_Set cs (clusters cf) of
             (addedClusters, removedClusters) \<Rightarrow>
               (let cf1 = cf\<lparr>clusters := cs,
                             opsUpdateClusters := Suc (opsUpdateClusters cf),
                             opsClustersCount := length cs\<rparr>
                in if length addedClusters > 0 \<or> length removedClusters > 0 then
                     (case notifyWatchers (watchers cf1) addedClusters removedClusters cf1 of
                        Returns cf2 \<Rightarrow> Returns (None, cf2)
                      | Blocks \<Rightarrow> Blocks
                      | Panics \<Rightarrow> Panics)
                   else Returns (None, cf1))))"

subsection \<open>syncCaches and UpdateNamespaces\<close>

text \<open>
  Lines 364 to 373. Modelled from the spec: \<open>ClustersNamespaces.Clear\<close> and
  \<open>UsersNamespaces.Clear\<close> are declared outside factory.go; section 4.3 has them empty
  their cache in full.
\<close>

definition syncCaches :: "(cluster list \<Rightarrow> string) \<Rightarrow> clustersManager \<Rightarrow> clustersManager" where
  "syncCaches Hash cf =
     (let newHash = Hash (clusters cf)
      in if newHash \<noteq> clustersHash cf then
           cf\<lparr>clustersNamespaces := Map.empty,
              usersNamespaces := Map.empty,
              clustersHash := newHash\<rparr>
         else cf)"

text \<open>
  Lines 341 to 353: one cluster's lists. An entry \<open>None\<close> is an object list that is not
  a \<open>*v1.NamespaceList\<close>, which the loop skips.
\<close>

definition setNamespaces ::
  "string \<times> Namespace list option list \<Rightarrow> clustersManager \<Rightarrow> clustersManager" where
  "setNamespaces entry cf =
     (case entry of (clusterName, nsLists) \<Rightarrow>
        fold (\<lambda>l cf'. case l of
                None \<Rightarrow> cf'
              | Some items \<Rightarrow>
                  cf'\<lparr>clustersNamespaces := (clustersNamespaces cf')(clusterName \<mapsto> items),
                      opsNamespacesCount := (opsNamespacesCount cf')(clusterName \<mapsto> length items)\<rparr>)
          nsLists cf)"

text \<open>
  Lines 317 to 358. \<open>ClusteredList\<close> stands for the call
  \<open>serverClient.ClusteredList(ctx, nsList, false)\<close> followed by \<open>nsList.Lists()\<close>: given the
  server client it yields the error of the call and the lists per cluster, in the order
  the loop of line 341 meets them. A nil \<open>serverClient\<close> would panic at line 337.
\<close>

definition UpdateNamespaces ::
  "(cluster list \<Rightarrow> string) \<Rightarrow> (cluster list \<Rightarrow> cluster list) \<Rightarrow>
     (clustersClient \<Rightarrow> error option \<times> (string \<times> Namespace list option list) list) \<Rightarrow>
     clustersManager \<Rightarrow> (error option \<times> clustersManager) exec" where
  "UpdateNamespaces Hash sched ClusteredList cf =
     (case GetServerClient_mgr sched cf of
        ((serverClient, err), cf1) \<Rightarrow>
          (let result0 =
                 (case err of
                    Some (MultiError es) \<Rightarrow>
                      fold (\<lambda>e result.
                              case e of
                                ClientError clusterName _ \<Rightarrow>
                                  multierror_Append result (WrapCluster e clusterName)
                              | _ \<Rightarrow> result) es []
                  | _ \<Rightarrow> []);
               cf2 = syncCaches Hash cf1
           in case serverClient of
                None \<Rightarrow> Panics
              | Some sc \<Rightarrow>
                  (case ClusteredList sc of
                     (listErr, nsLists) \<Rightarrow>
                       (let result1 = (case listErr of
                                         Some e \<Rightarrow> multierror_Append result0 e
                                       | None \<Rightarrow> result0);
                            cf3 = fold setNamespaces nsLists cf2
                        in Returns (ErrorOrNil result1,
                                    cf3\<lparr>opsUpdateNamespaces := Suc (opsUpdateNamespaces cf3)\<rparr>)))))"

subsection \<open>NewClustersManager\<close>

text \<open>
  Lines 213 to 227: no cluster, empty caches, no watcher. The hash starts as the empty
  string and the metrics at zero.
\<close>

definition NewClustersManager ::
  "(Clientset \<Rightarrow> Namespace list \<Rightarrow> error + Namespace list) \<Rightarrow> clustersManager" where
  "NewClustersManager checker =
     \<lparr>nsChecker = checker, clusters = [], clustersHash = [],
      clustersNamespaces = Map.empty, usersNamespaces = Map.empty, usersClients = Map.empty,
      watchers = [], Updates = Map.empty, nextWatcher = 0,
      opsUpdateClusters = 0, opsClustersCount = 0, opsUpdateNamespaces = 0,
      opsNamespacesCount = Map.empty,
      opsCreateServerClient = (\<lambda>n. 0), opsCreateUserClient = (\<lambda>n. 0)\<rparr>"

subsection \<open>The two refresh loops\<close>

text \<open>
  Lines 253 to 274 and 298 to 315. \<open>Start\<close> launches \<open>watchClusters\<close> and
  \<open>watchNamespaces\<close>. The first calls \<open>UpdateClusters\<close> once, sends on the unbuffered
  channel \<open>initialClustersLoad\<close>, and then polls \<open>UpdateClusters\<close> for ever; the second
  receives from that channel and then polls \<open>UpdateNamespaces\<close> for ever (the condition
  passed to \<open>wait.PollImmediateInfinite\<close> always answers \<open>false, nil\<close>). A goroutine is
  its position in that text; the system is both positions, the manager they share, and
  the trace of what the two loops have done.
\<close>

datatype clustersPc = FirstUpdate | SignalLoad | PollClusters

datatype namespacesPc = AwaitLoad | PollNamespaces

datatype event =
    UpdateClustersReturned "error option"
  | InitialClustersLoad
  | UpdateNamespacesReturned "error option"

record system =
  watchClusters :: clustersPc
  watchNamespaces :: namespacesPc
  manager :: clustersManager
  trace :: "event list"

definition Start :: "clustersManager \<Rightarrow> system" where
  "Start cf = \<lparr>watchClusters = FirstUpdate, watchNamespaces = AwaitLoad, manager = cf, trace = []\<rparr>"

text \<open>
  One step of the system. A call of \<open>UpdateClusters\<close> or \<open>UpdateNamespaces\<close> is one step,
  taken when the call returns; what \<open>Fetch\<close> and \<open>ClusteredList\<close> answer and the order
  in which the goroutines of a fan-out finish are chosen freely at each step. The send
  and the receive on the unbuffered channel are one joint step. The last three rules are
  the other goroutines that touch the watchers: a subscriber that receives from its
  channel, \<open>Subscribe\<close> and \<open>Unsubscribe\<close>.
\<close>

inductive step :: "(cluster list \<Rightarrow> string) \<Rightarrow> system \<Rightarrow> system \<Rightarrow> bool"
  for Hash :: "cluster list \<Rightarrow> string" where
  first_update:
    "watchClusters s = FirstUpdate \<Longrightarrow>
     UpdateClusters fetched (manager s) = Returns (err, cf') \<Longrightarrow>
     step Hash s (s\<lparr>watchClusters := SignalLoad, manager := cf',
                    trace := trace s @ [UpdateClustersReturned err]\<rparr>)"
| initial_load:
    "watchClusters s = SignalLoad \<Longrightarrow> watchNamespaces s = AwaitLoad \<Longrightarrow>
     step Hash s (s\<lparr>watchClusters := PollClusters, watchNamespaces := PollNamespaces,
                    trace := trace s @ [InitialClustersLoad]\<rparr>)"
| poll_clusters:
    "watchClusters s = PollClusters \<Longrightarrow>
     UpdateClusters fetched (manager s) = Returns (err, cf') \<Longrightarrow>
     step Hash s (s\<lparr>manager := cf', trace := trace s @ [UpdateClustersReturned err]\<rparr>)"
| poll_namespaces:
    "watchNamespaces s = PollNamespaces \<Longrightarrow>
     mset (sched (clusters (manager s))) = mset (clusters (manager s)) \<Longrightarrow>
     UpdateNamespaces Hash sched ClusteredList (manager s) = Returns (err, cf') \<Longrightarrow>
     step Hash s (s\<lparr>manager := cf', trace := trace s @ [UpdateNamespacesReturned err]\<rparr>)"
| drain:
    "Updates (manager s) w = Some ch \<Longrightarrow> receive ch = Returns (u, ch') \<Longrightarrow>
     step Hash s (s\<lparr>manager := (manager s)\<lparr>Updates := (Updates (manager s))(w \<mapsto> ch')\<rparr>\<rparr>)"
| subscribe:
    "step Hash s (s\<lparr>manager := snd (Subscribe (manager s))\<rparr>)"
| unsubscribe:
    "Unsubscribe w (manager s) = Returns cf' \<Longrightarrow> step Hash s (s\<lparr>manager := cf'\<rparr>)"

text \<open>The states the system reaches after \<open>Start\<close> on a manager.\<close>

inductive run :: "(cluster list \<Rightarrow> string) \<Rightarrow> clustersManager \<Rightarrow> system \<Rightarrow> bool"
  for Hash :: "cluster list \<Rightarrow> string" and cf :: clustersManager where
  started: "run Hash cf (Start cf)"
| stepped: "run Hash cf s \<Longrightarrow> step Hash s s' \<Longrightarrow> run Hash cf s'"

subsection \<open>Notions used by the properties\<close>

text \<open>A channel with one more update at the end of its buffer.\<close>

definition push :: "ClusterListUpdate \<Rightarrow> chan \<Rightarrow> chan" where
  "push u ch = ch\<lparr>buffer := buffer ch @ [u]\<rparr>"

text \<open>A watcher whose channel is open and has a free slot: a send to it completes.\<close>

definition hasRoom :: "clustersManager \<Rightarrow> nat \<Rightarrow> bool" where
  "hasRoom cf w =
     (case Updates cf w of
        None \<Rightarrow> False
      | Some ch \<Rightarrow> \<not> closed ch \<and> length (buffer ch) < capacity ch)"

text \<open>
  The list of watchers holds each watcher once, and every watcher in it was allocated by
  \<open>Subscribe\<close>.
\<close>

definition watchersOk :: "clustersManager \<Rightarrow> bool" where
  "watchersOk cf \<longleftrightarrow> distinct (watchers cf) \<and> list_all (\<lambda>w. w < nextWatcher cf) (watchers cf)"

text \<open>
  What the goroutine of one cluster comes to in a fan-out on the manager \<open>cf\<close>: the
  client it resolves or creates, or the error it sends, tagged with the cluster's name.
\<close>

definition created :: "UserPrincipal option \<Rightarrow> clustersManager \<Rightarrow> cluster \<Rightarrow> Client option" where
  "created user cf cl =
     (case fst (getOrCreateClient user cl cf) of Inl err \<Rightarrow> None | Inr client \<Rightarrow> Some client)"

definition creationError ::
  "UserPrincipal option \<Rightarrow> string \<Rightarrow> clustersManager \<Rightarrow> cluster \<Rightarrow> error option" where
  "creationError user what cf cl =
     (case fst (getOrCreateClient user cl cf) of
        Inl err \<Rightarrow> Some (ClientError (GetName cl) (Wrap what err))
      | Inr client \<Rightarrow> None)"

text \<open>
  What the namespace refresh writes: the two namespace caches, the recorded hash and the
  namespace metrics.
\<close>

definition namespaceState ::
  "clustersManager \<Rightarrow>
     (string \<rightharpoonup> Namespace list) \<times> (string \<times> string \<rightharpoonup> Namespace list) \<times> string \<times> nat \<times>
     (string \<rightharpoonup> nat)" where
  "namespaceState cf =
     (clustersNamespaces cf, usersNamespaces cf, clustersHash cf, opsUpdateNamespaces cf,
      opsNamespacesCount cf)"

text \<open>
  The invariant of the two loops: where \<open>watchClusters\<close> stands fixes where
  \<open>watchNamespaces\<close> stands and the shape of the trace.
\<close>

definition loadInv :: "clustersManager \<Rightarrow> system \<Rightarrow> bool" where
  "loadInv cf s =
     (case watchClusters s of
        FirstUpdate \<Rightarrow>
          watchNamespaces s = AwaitLoad \<and> trace s = [] \<and>
          namespaceState (manager s) = namespaceState cf
      | SignalLoad \<Rightarrow>
          watchNamespaces s = AwaitLoad \<and> (\<exists>e. trace s = [UpdateClustersReturned e]) \<and>
          namespaceState (manager s) = namespaceState cf
      | PollClusters \<Rightarrow>
          watchNamespaces s = PollNamespaces \<and>
          (\<exists>e rest. trace s = UpdateClustersReturned e # InitialClustersLoad # rest \<and>
                    InitialClustersLoad \<notin> set rest))"

subsection \<open>Example values\<close>

definition exCluster :: "string \<Rightarrow> (error + Client) \<Rightarrow> (error + Client) \<Rightarrow> cluster" where
  "exCluster n srv usr =
     \<lparr>GetName = n, GetServerClient = srv, GetUserClient = (\<lambda>u. usr),
      GetUserClientset = (\<lambda>u. Inr 0)\<rparr>"

definition exA :: cluster where
  "exA = exCluster ''a'' (Inr 1) (Inr 2)"

definition exB :: cluster where
  "exB = exCluster ''b'' (Inl (New ''down'')) (Inl (New ''down''))"

definition exC :: cluster where
  "exC = exCluster ''c'' (Inr 3) (Inr 4)"

definition exUser :: UserPrincipal where
  "exUser = \<lparr>ID = ''alice'', Groups = []\<rparr>"

definition exManager :: clustersManager where
  "exManager =
     (NewClustersManager (\<lambda>cs ns. Inr ns))
       \<lparr>clusters := [exA, exB],
        clustersNamespaces := [''a'' \<mapsto> [''default'']],
        usersNamespaces := [(''bob'', ''a'') \<mapsto> [''default'']],
        usersClients := [(''bob'', ''a'') \<mapsto> 7]\<rparr>"

definition exWatched :: clustersManager where
  "exWatched = snd (Subscribe (snd (Subscribe (NewClustersManager (\<lambda>cs ns. Inr ns)))))"

definition exHash :: "cluster list \<Rightarrow> string" where
  "exHash cs = concat (map GetName cs)"

section \<open>Properties\<close>

lemmas ex_defs =
  exCluster_def exA_def exB_def exC_def exUser_def exManager_def exWatched_def exHash_def
  NewClustersManager_def

subsection \<open>getOrCreateClient\<close>

text \<open>
  C7. \<open>getOrCreateClient\<close> looks the pair of identity and cluster name up in the user
  client cache, where the identity of a nil user is the principal \<open>weave-gitops-server\<close>.
  On a hit it returns the cached client and changes nothing, so no factory counter moves.
  On a miss it counts and calls the server factory for a nil user and the user factory
  otherwise; a client that was made is stored under the key and returned, a failure is
  returned wrapped and the cache stays as it was.
\<close>

theorem getOrCreateClient_spec:
  "(\<forall>c. usersClients cf (ID (case user of None \<Rightarrow> serverPrincipal | Some u \<Rightarrow> u), GetName cl) = Some c \<longrightarrow>
        getOrCreateClient user cl cf = (Inr c, cf)) \<and>
   (usersClients cf (ID (case user of None \<Rightarrow> serverPrincipal | Some u \<Rightarrow> u), GetName cl) = None \<longrightarrow>
      (let made = (case user of None \<Rightarrow> GetServerClient cl | Some u \<Rightarrow> GetUserClient cl u);
           counted = (case user of
                        None \<Rightarrow> cf\<lparr>opsCreateServerClient :=
                                   (opsCreateServerClient cf)
                                     (GetName cl := Suc (opsCreateServerClient cf (GetName cl)))\<rparr>
                      | Some u \<Rightarrow> cf\<lparr>opsCreateUserClient :=
                                   (opsCreateUserClient cf)
                                     (GetName cl := Suc (opsCreateUserClient cf (GetName cl)))\<rparr>)
       in case made of
            Inr c \<Rightarrow>
              getOrCreateClient user cl cf =
                (Inr c, counted\<lparr>usersClients :=
                   (usersClients cf)
                     ((ID (case user of None \<Rightarrow> serverPrincipal | Some u \<Rightarrow> u), GetName cl) \<mapsto> c)\<rparr>)
          | Inl e \<Rightarrow>
              getOrCreateClient user cl cf =
                (Inl (Wrap (''failed creating client for cluster='' @ GetName cl @ '': '') e), counted) \<and>
              usersClients counted = usersClients cf)) \<and>
   ID serverPrincipal = ''weave-gitops-server''"
  by (cases user)
     (auto simp: getOrCreateClient_def UsersClients_Get_def UsersClients_Set_def Let_def
                 serverPrincipal_def
           split: sum.splits option.splits)

theorem getOrCreateClient_spec_witness:
  "getOrCreateClient (Some \<lparr>ID = ''bob'', Groups = []\<rparr>) exA exManager = (Inr 7, exManager) \<and>
   fst (getOrCreateClient None exA exManager) = Inr 1 \<and>
   usersClients (snd (getOrCreateClient None exA exManager)) (''weave-gitops-server'', ''a'') = Some 1 \<and>
   opsCreateServerClient (snd (getOrCreateClient None exA exManager)) ''a'' = 1 \<and>
   opsCreateUserClient (snd (getOrCreateClient None exA exManager)) ''a'' = 0 \<and>
   fst (getOrCreateClient (Some exUser) exA exManager) = Inr 2 \<and>
   usersClients (snd (getOrCreateClient (Some exUser) exA exManager)) (''alice'', ''a'') = Some 2 \<and>
   opsCreateUserClient (snd (getOrCreateClient (Some exUser) exA exManager)) ''a'' = 1 \<and>
   fst (getOrCreateClient (Some exUser) exB exManager) =
     Inl (Wrap ''failed creating client for cluster=b: '' (New ''down'')) \<and>
   usersClients (snd (getOrCreateClient (Some exUser) exB exManager)) (''alice'', ''b'') = None"
  using getOrCreateClient_spec [of exManager "Some \<lparr>ID = ''bob'', Groups = []\<rparr>" exA]
        getOrCreateClient_spec [of exManager None exA]
        getOrCreateClient_spec [of exManager "Some exUser" exA]
        getOrCreateClient_spec [of exManager "Some exUser" exB]
  by (simp add: ex_defs serverPrincipal_def)

subsection \<open>A nil user\<close>

text \<open>
  C4. With a nil user, \<open>GetImpersonatedClient\<close>, \<open>GetImpersonatedClientForCluster\<close> and
  \<open>GetImpersonatedDiscoveryClient\<close> return a nil client and the error "no user supplied",
  whatever the clusters are, and the manager (caches and counters included) is as it was:
  no client was made, no cache was read or written.
\<close>

theorem nil_user_rejected:
  "GetImpersonatedClient sched nsSched cf None = ((None, Some (New ''no user supplied'')), cf) \<and>
   GetImpersonatedClientForCluster zeroCluster nsSched cf None clusterName =
     Returns ((None, Some (New ''no user supplied'')), cf) \<and>
   GetImpersonatedDiscoveryClient cf None clusterName = (None, Some (New ''no user supplied''))"
  by (simp add: GetImpersonatedClient_def GetImpersonatedClientForCluster_def
                GetImpersonatedDiscoveryClient_def)

theorem nil_user_rejected_witness:
  "GetImpersonatedClient id id exManager None =
     ((None, Some (New ''no user supplied'')), exManager) \<and>
   GetImpersonatedClientForCluster None id exManager None ''a'' =
     Returns ((None, Some (New ''no user supplied'')), exManager) \<and>
   GetImpersonatedDiscoveryClient exManager None ''a'' = (None, Some (New ''no user supplied''))"
  using nil_user_rejected [of id id exManager None "''a''"] by simp

subsection \<open>An unknown cluster\<close>

text \<open>
  C3. factory.go uses \<open>cluster.Cluster\<close> through its methods only, as an interface, so
  the zero value of \<open>var cl cluster.Cluster\<close> is nil. For a user that is not nil and a name
  that no known cluster has, the loop of \<open>GetImpersonatedClientForCluster\<close> leaves \<open>cl\<close>
  nil and the call \<open>cl.GetName()\<close> of line 432 panics: the method does not return the
  nil client and the error "cluster not found" that line 433 is there to return. The
  sibling \<open>GetImpersonatedDiscoveryClient\<close> does return that error for the same name, by
  falling through its loop.
\<close>

theorem unknown_cluster_panics:
  assumes "clusterName \<notin> GetName ` set (clusters cf)"
  shows "GetImpersonatedClientForCluster None nsSched cf (Some u) clusterName = Panics \<and>
         GetImpersonatedDiscoveryClient cf (Some u) clusterName =
           (None, Some (New (''cluster not found: '' @ clusterName)))"
proof -
  have "find (\<lambda>c. GetName c = clusterName) (clusters cf) = None"
    using assms by (auto simp: find_None_iff)
  then show ?thesis
    by (simp add: GetImpersonatedClientForCluster_def GetImpersonatedDiscoveryClient_def)
qed

theorem unknown_cluster_panics_witness:
  "GetImpersonatedClientForCluster None id exManager (Some exUser) ''zz'' = Panics \<and>
   GetImpersonatedDiscoveryClient exManager (Some exUser) ''zz'' =
     (None, Some (New ''cluster not found: zz''))"
  using unknown_cluster_panics [of "''zz''" exManager id exUser]
  by (simp add: ex_defs)

text \<open>
  Only for a type whose zero value is a value with the empty name would the comparison of
  line 432 give the error and leave the manager as it was.
\<close>

lemma struct_zero_value_not_found:
  assumes "clusterName \<notin> GetName ` set (clusters cf)"
    and "zeroCluster = Some z" and "GetName z = []"
  shows "GetImpersonatedClientForCluster zeroCluster nsSched cf (Some u) clusterName =
           Returns ((None, Some (New (''cluster not found: '' @ clusterName))), cf)"
proof -
  have "find (\<lambda>c. GetName c = clusterName) (clusters cf) = None"
    using assms(1) by (auto simp: find_None_iff)
  then show ?thesis
    using assms(2,3) by (simp add: GetImpersonatedClientForCluster_def)
qed

subsection \<open>UpdateClusters\<close>

text \<open>
  C5. When \<open>Fetch\<close> returns an error, \<open>UpdateClusters\<close> returns that error wrapped in
  "failed to fetch clusters" and the manager is as it was: the registry holds the same
  clusters, no channel of a watcher received anything, and the counters did not move.
\<close>

theorem UpdateClusters_fetch_error:
  "UpdateClusters (Inl err) cf = Returns (Some (Wrap ''failed to fetch clusters: '' err), cf)"
  by (simp add: UpdateClusters_def)

theorem UpdateClusters_fetch_error_witness:
  "UpdateClusters (Inl (New ''timeout'')) exWatched =
     Returns (Some (Wrap ''failed to fetch clusters: '' (New ''timeout'')), exWatched)"
  using UpdateClusters_fetch_error [of "New ''timeout''" exWatched] by simp

text \<open>The loop over the watchers: what a completed run has done, and when a run completes.\<close>

lemma Notify_Returns:
  "Notify w a r cf = Returns cf' \<Longrightarrow>
     cf' = cf\<lparr>Updates := (\<lambda>x. if x = w then map_option (push \<lparr>Added = a, Removed = r\<rparr>) (Updates cf x)
                               else Updates cf x)\<rparr>"
  by (auto simp: Notify_def push_def fun_eq_iff split: option.splits if_splits
           intro!: clustersManager.equality)

lemma Notify_hasRoom: "hasRoom cf w \<Longrightarrow> \<exists>cf'. Notify w a r cf = Returns cf'"
  by (auto simp: Notify_def hasRoom_def split: option.splits)

lemma Notify_hasRoom_other:
  "Notify w a r cf = Returns cf' \<Longrightarrow> x \<noteq> w \<Longrightarrow> hasRoom cf' x = hasRoom cf x"
  by (auto simp: Notify_def hasRoom_def split: option.splits if_splits)

lemma notifyWatchers_Returns:
  "notifyWatchers ws a r cf = Returns cf' \<Longrightarrow> distinct ws \<Longrightarrow>
     cf' = cf\<lparr>Updates := (\<lambda>x. if x \<in> set ws then map_option (push \<lparr>Added = a, Removed = r\<rparr>) (Updates cf x)
                               else Updates cf x)\<rparr>"
proof (induction ws arbitrary: cf)
  case Nil
  then show ?case by simp
next
  case (Cons w ws)
  from Cons.prems(1) obtain cf1 where n: "Notify w a r cf = Returns cf1"
    and rest: "notifyWatchers ws a r cf1 = Returns cf'"
    by (auto split: exec.splits)
  from Cons.prems(2) have d: "distinct ws" and nin: "w \<notin> set ws" by simp_all
  have "cf' = cf1\<lparr>Updates := (\<lambda>x. if x \<in> set ws
                                      then map_option (push \<lparr>Added = a, Removed = r\<rparr>) (Updates cf1 x)
                                      else Updates cf1 x)\<rparr>"
    by (rule Cons.IH [OF rest d])
  also have "\<dots> = cf\<lparr>Updates := (\<lambda>x. if x \<in> set (w # ws)
                                      then map_option (push \<lparr>Added = a, Removed = r\<rparr>) (Updates cf x)
                                      else Updates cf x)\<rparr>"
    unfolding Notify_Returns [OF n] using nin
    by (auto simp: fun_eq_iff intro!: arg_cong [where f = "\<lambda>U. cf\<lparr>Updates := U\<rparr>"])
  finally show ?case .
qed

lemma notifyWatchers_room:
  "distinct ws \<Longrightarrow> \<forall>w\<in>set ws. hasRoom cf w \<Longrightarrow> \<exists>cf'. notifyWatchers ws a r cf = Returns cf'"
proof (induction ws arbitrary: cf)
  case Nil
  then show ?case by simp
next
  case (Cons w ws)
  from Cons.prems obtain cf1 where n: "Notify w a r cf = Returns cf1"
    using Notify_hasRoom [of cf w a r] by auto
  have "hasRoom cf1 x" if "x \<in> set ws" for x
  proof -
    from that Cons.prems(1) have "x \<noteq> w" by auto
    with Notify_hasRoom_other [OF n] that Cons.prems(2) show ?thesis by simp
  qed
  then have "\<forall>x\<in>set ws. hasRoom cf1 x" by blast
  with Cons.IH [of cf1] Cons.prems(1) obtain cf' where "notifyWatchers ws a r cf1 = Returns cf'"
    by auto
  with n show ?case by simp
qed

text \<open>
  A new manager has each watcher once in its list, and \<open>Subscribe\<close>, \<open>Unsubscribe\<close> and
  \<open>UpdateClusters\<close> keep it so.
\<close>

lemma watchersOk_New: "watchersOk (NewClustersManager checker)"
  by (simp add: watchersOk_def NewClustersManager_def)

lemma watchersOk_Subscribe: "watchersOk cf \<Longrightarrow> watchersOk (snd (Subscribe cf))"
  by (auto simp: watchersOk_def Subscribe_def Let_def list_all_iff less_Suc_eq)

lemma watchersOk_Unsubscribe:
  "watchersOk cf \<Longrightarrow> Unsubscribe w cf = Returns cf' \<Longrightarrow> watchersOk cf'"
  by (auto simp: watchersOk_def Unsubscribe_def RemoveWatcher_def Let_def list_all_iff
           split: option.splits if_splits)

lemma notifyWatchers_watchers:
  "notifyWatchers ws a r cf = Returns cf' \<Longrightarrow>
     watchers cf' = watchers cf \<and> nextWatcher cf' = nextWatcher cf"
proof (induction ws arbitrary: cf)
  case Nil
  then show ?case by simp
next
  case (Cons w ws)
  from Cons.prems obtain cf1 where n: "Notify w a r cf = Returns cf1"
    and rest: "notifyWatchers ws a r cf1 = Returns cf'"
    by (auto split: exec.splits)
  from n have "watchers cf1 = watchers cf \<and> nextWatcher cf1 = nextWatcher cf"
    by (auto simp: Notify_def split: option.splits if_splits)
  with Cons.IH [OF rest] show ?case by simp
qed

lemma watchersOk_UpdateClusters:
  assumes "watchersOk cf" and "UpdateClusters fetched cf = Returns (err, cf')"
  shows "watchersOk cf'"
proof (cases fetched)
  case (Inl e)
  with assms show ?thesis by (simp add: UpdateClusters_def)
next
  case (Inr cs)
  let ?cf1 = "cf\<lparr>clusters := cs, opsUpdateClusters := Suc (opsUpdateClusters cf),
                 opsClustersCount := length cs\<rparr>"
  from assms(2) Inr consider "cf' = ?cf1"
    | a r where "notifyWatchers (watchers ?cf1) a r ?cf1 = Returns cf'"
    by (auto simp: UpdateClusters_def Let_def split: prod.splits if_splits exec.splits)
  then show ?thesis
  proof cases
    case 1
    with assms(1) show ?thesis by (simp add: watchersOk_def)
  next
    case 2
    from notifyWatchers_watchers [OF 2] assms(1) show ?thesis by (simp add: watchersOk_def)
  qed
qed

text \<open>
  C6. After a successful fetch, with \<open>added\<close> and \<open>removed\<close> the lists the registry's
  \<open>Set\<close> returns and the watchers registered once each: when both lists are empty,
  \<open>UpdateClusters\<close> returns nil and no channel has changed; when one of them is not empty
  and every watcher's channel is open with a free slot, \<open>UpdateClusters\<close> returns; and
  whenever it returns with a list that is not empty, the error is nil and the channel of
  every registered watcher has received exactly the update with these two lists, while
  every other channel is as it was.
\<close>

theorem UpdateClusters_notifies:
  assumes "Clusters_Set cs (clusters cf) = (added, removed)" and "distinct (watchers cf)"
  shows "(added = [] \<and> removed = [] \<longrightarrow>
            (\<exists>cf'. UpdateClusters (Inr cs) cf = Returns (None, cf') \<and> Updates cf' = Updates cf)) \<and>
         ((added \<noteq> [] \<or> removed \<noteq> []) \<and> (\<forall>w\<in>set (watchers cf). hasRoom cf w) \<longrightarrow>
            (\<exists>cf'. UpdateClusters (Inr cs) cf = Returns (None, cf'))) \<and>
         (\<forall>e cf'. (added \<noteq> [] \<or> removed \<noteq> []) \<and> UpdateClusters (Inr cs) cf = Returns (e, cf') \<longrightarrow>
            e = None \<and>
            Updates cf' =
              (\<lambda>w. if w \<in> set (watchers cf)
                   then map_option (push \<lparr>Added = added, Removed = removed\<rparr>) (Updates cf w)
                   else Updates cf w))"
proof (intro conjI impI allI)
  assume "added = [] \<and> removed = []"
  with assms(1)
  show "\<exists>cf'. UpdateClusters (Inr cs) cf = Returns (None, cf') \<and> Updates cf' = Updates cf"
    by (simp add: UpdateClusters_def)
next
  let ?cf1 = "cf\<lparr>clusters := cs, opsUpdateClusters := Suc (opsUpdateClusters cf),
                 opsClustersCount := length cs\<rparr>"
  assume a: "(added \<noteq> [] \<or> removed \<noteq> []) \<and> (\<forall>w\<in>set (watchers cf). hasRoom cf w)"
  then have "\<forall>w\<in>set (watchers ?cf1). hasRoom ?cf1 w"
    by (simp add: hasRoom_def)
  with assms(2) obtain cf' where "notifyWatchers (watchers ?cf1) added removed ?cf1 = Returns cf'"
    using notifyWatchers_room [of "watchers ?cf1" ?cf1 added removed] by auto
  with a assms(1) show "\<exists>cf'. UpdateClusters (Inr cs) cf = Returns (None, cf')"
    by (auto simp: UpdateClusters_def)
next
  fix e cf'
  let ?cf1 = "cf\<lparr>clusters := cs, opsUpdateClusters := Suc (opsUpdateClusters cf),
                 opsClustersCount := length cs\<rparr>"
  assume a: "(added \<noteq> [] \<or> removed \<noteq> []) \<and> UpdateClusters (Inr cs) cf = Returns (e, cf')"
  with assms(1) have e: "e = None"
    and n: "notifyWatchers (watchers ?cf1) added removed ?cf1 = Returns cf'"
    by (auto simp: UpdateClusters_def split: exec.splits)
  show "e = None" by (rule e)
  from assms(2) have "distinct (watchers ?cf1)" by simp
  from notifyWatchers_Returns [OF n this]
  show "Updates cf' =
          (\<lambda>w. if w \<in> set (watchers cf)
               then map_option (push \<lparr>Added = added, Removed = removed\<rparr>) (Updates cf w)
               else Updates cf w)"
    by (simp cong: if_cong)
qed

theorem UpdateClusters_notifies_witness:
  "(\<exists>cf'. UpdateClusters (Inr [exA]) exWatched = Returns (None, cf') \<and>
          map_option buffer (Updates cf' 0) = Some [\<lparr>Added = [exA], Removed = []\<rparr>] \<and>
          map_option buffer (Updates cf' 1) = Some [\<lparr>Added = [exA], Removed = []\<rparr>] \<and>
          Updates cf' 2 = None) \<and>
   (\<exists>cf'. UpdateClusters (Inr []) exWatched = Returns (None, cf') \<and>
          Updates cf' = Updates exWatched)"
  using UpdateClusters_notifies [of "[exA]" exWatched "[exA]" "[]"]
        UpdateClusters_notifies [of "[]" exWatched "[]" "[]"]
  by (auto simp: exWatched_def Subscribe_def NewClustersManager_def Clusters_Set_def hasRoom_def
                 push_def)

subsection \<open>Subscribe and Unsubscribe\<close>

text \<open>
  C9. \<open>Subscribe\<close> makes a new watcher, appends it to the list of watchers and gives it
  an open, empty channel of capacity one: a first send to it completes and a second one
  blocks. \<open>Unsubscribe\<close> of a watcher whose channel is open returns with the list of
  watchers filtered of that watcher alone, all others in their places, and with the
  watcher's channel closed and every other channel as it was; a receive on the closed
  channel does not block, and yields the closed mark once the buffer is empty.
\<close>

theorem Subscribe_Unsubscribe_spec:
  "(case Subscribe cf of
      (cw, cf') \<Rightarrow>
        cw = nextWatcher cf \<and>
        watchers cf' = watchers cf @ [cw] \<and>
        Updates cf' cw = Some \<lparr>capacity = 1, buffer = [], closed = False\<rparr> \<and>
        (\<forall>w. w \<noteq> cw \<longrightarrow> Updates cf' w = Updates cf w) \<and>
        (\<exists>cf''. Notify cw a r cf' = Returns cf'' \<and> Notify cw a' r' cf'' = Blocks)) \<and>
   (\<forall>ch. Updates cf w0 = Some ch \<and> \<not> closed ch \<longrightarrow>
      (\<exists>cf'. Unsubscribe w0 cf = Returns cf' \<and>
             watchers cf' = filter (\<lambda>w. w \<noteq> w0) (watchers cf) \<and>
             Updates cf' w0 = Some (ch\<lparr>closed := True\<rparr>) \<and>
             (\<forall>w. w \<noteq> w0 \<longrightarrow> Updates cf' w = Updates cf w) \<and>
             receive (ch\<lparr>closed := True\<rparr>) \<noteq> Blocks \<and>
             (buffer ch = [] \<longrightarrow> receive (ch\<lparr>closed := True\<rparr>) = Returns (None, ch\<lparr>closed := True\<rparr>))))"
  by (auto simp: Subscribe_def Unsubscribe_def RemoveWatcher_def Notify_def receive_def Let_def
           split: list.splits intro: arg_cong [where f = "\<lambda>P. filter P (watchers cf)"])

theorem Subscribe_Unsubscribe_spec_witness:
  "fst (Subscribe exWatched) = 2 \<and>
   watchers (snd (Subscribe exWatched)) = [0, 1, 2] \<and>
   Updates (snd (Subscribe exWatched)) 2 = Some \<lparr>capacity = 1, buffer = [], closed = False\<rparr> \<and>
   (\<exists>cf'. Unsubscribe 0 exWatched = Returns cf' \<and>
          watchers cf' = [1] \<and>
          Updates cf' 0 = Some \<lparr>capacity = 1, buffer = [], closed = True\<rparr> \<and>
          Updates cf' 1 = Some \<lparr>capacity = 1, buffer = [], closed = False\<rparr> \<and>
          receive \<lparr>capacity = 1, buffer = [], closed = True\<rparr> =
            Returns (None, \<lparr>capacity = 1, buffer = [], closed = True\<rparr>))"
  using Subscribe_Unsubscribe_spec [of exWatched "[]" "[]" "[]" "[]" 0]
  by (auto simp: exWatched_def Subscribe_def NewClustersManager_def)

subsection \<open>syncCaches\<close>

text \<open>
  C2. When the hash of the registry differs from the recorded one, \<open>syncCaches\<close> empties
  the namespace cache and the user namespace cache and records the new hash, and nothing
  else changes; when the hash is the recorded one, the manager is as it was. The user
  client cache is the same after the step in both cases.
\<close>

theorem syncCaches_spec:
  "(Hash (clusters cf) \<noteq> clustersHash cf \<longrightarrow>
      syncCaches Hash cf =
        cf\<lparr>clustersNamespaces := Map.empty, usersNamespaces := Map.empty,
           clustersHash := Hash (clusters cf)\<rparr>) \<and>
   (Hash (clusters cf) = clustersHash cf \<longrightarrow> syncCaches Hash cf = cf) \<and>
   usersClients (syncCaches Hash cf) = usersClients cf"
  by (simp add: syncCaches_def Let_def)

theorem syncCaches_spec_witness:
  "syncCaches exHash exManager =
     exManager\<lparr>clustersNamespaces := Map.empty, usersNamespaces := Map.empty,
               clustersHash := ''ab''\<rparr> \<and>
   syncCaches exHash (exManager\<lparr>clustersHash := ''ab''\<rparr>) = exManager\<lparr>clustersHash := ''ab''\<rparr> \<and>
   usersClients (syncCaches exHash exManager) (''bob'', ''a'') = Some 7"
  using syncCaches_spec [of exHash exManager]
        syncCaches_spec [of exHash "exManager\<lparr>clustersHash := ''ab''\<rparr>"]
  by (simp add: ex_defs)

text \<open>
  \<open>UpdateNamespaces\<close> runs the step after \<open>GetServerClient\<close> and before the listing:
  when it returns, the hash recorded is that of the registry, the user namespace cache
  is empty if the hash had changed and untouched otherwise, and the user client cache is
  as \<open>GetServerClient\<close> left it.
\<close>

lemma getOrCreateClient_namespaceState:
  "namespaceState (snd (getOrCreateClient user cl cf)) = namespaceState cf \<and>
   clusters (snd (getOrCreateClient user cl cf)) = clusters cf"
  by (auto simp: getOrCreateClient_def namespaceState_def Let_def split: option.splits sum.splits)

lemma clientTask_namespaceState:
  "clientTask user what cl (cf, p, e) = (cf', p', e') \<Longrightarrow>
     namespaceState cf' = namespaceState cf \<and> clusters cf' = clusters cf"
  using getOrCreateClient_namespaceState [of user cl cf]
  by (auto simp: clientTask_def split: prod.splits sum.splits)

lemma clientTask_fold_namespaceState:
  "fold (clientTask user what) xs (cf, p, e) = (cf', p', e') \<Longrightarrow>
     namespaceState cf' = namespaceState cf \<and> clusters cf' = clusters cf"
proof (induction xs arbitrary: cf p e)
  case Nil
  then show ?case by simp
next
  case (Cons x xs)
  obtain cf1 p1 e1 where step: "clientTask user what x (cf, p, e) = (cf1, p1, e1)"
    by (cases "clientTask user what x (cf, p, e)") auto
  with Cons.prems have "fold (clientTask user what) xs (cf1, p1, e1) = (cf', p', e')" by simp
  from Cons.IH [OF this] clientTask_namespaceState [OF step] show ?case by simp
qed

lemma GetServerClient_namespaceState:
  "namespaceState (snd (GetServerClient_mgr sched cf)) = namespaceState cf \<and>
   clusters (snd (GetServerClient_mgr sched cf)) = clusters cf"
proof -
  obtain cf' p' e' where
    f: "fold (clientTask None ''failed creating server client to pool: '') (sched (clusters cf))
          (cf, NewClustersClientsPool, []) = (cf', p', e')"
    by (cases "fold (clientTask None ''failed creating server client to pool: '')
                 (sched (clusters cf)) (cf, NewClustersClientsPool, [])") auto
  from clientTask_fold_namespaceState [OF f] f show ?thesis
    by (simp add: GetServerClient_mgr_def fanOut_def)
qed

lemma setNamespaces_frame:
  "usersNamespaces (fold setNamespaces nsLists cf) = usersNamespaces cf \<and>
   usersClients (fold setNamespaces nsLists cf) = usersClients cf \<and>
   clustersHash (fold setNamespaces nsLists cf) = clustersHash cf"
proof (induction nsLists arbitrary: cf)
  case Nil
  show ?case by simp
next
  case (Cons entry nsLists)
  obtain n ls where entry: "entry = (n, ls)" by (cases entry)
  have "usersNamespaces (setNamespaces (n, ls) cf) = usersNamespaces cf \<and>
        usersClients (setNamespaces (n, ls) cf) = usersClients cf \<and>
        clustersHash (setNamespaces (n, ls) cf) = clustersHash cf"
    unfolding setNamespaces_def prod.case
    by (induction ls arbitrary: cf) (auto split: option.splits)
  with Cons.IH [of "setNamespaces entry cf"] entry show ?case by simp
qed

lemma UpdateNamespaces_syncs:
  assumes "UpdateNamespaces Hash sched ClusteredList cf = Returns (err, cf')"
  shows "usersClients cf' = usersClients (snd (GetServerClient_mgr sched cf)) \<and>
         clustersHash cf' = Hash (clusters cf) \<and>
         usersNamespaces cf' =
           (if Hash (clusters cf) \<noteq> clustersHash cf then Map.empty else usersNamespaces cf)"
proof -
  obtain sc e cf1 where g: "GetServerClient_mgr sched cf = ((sc, e), cf1)"
    by (cases "GetServerClient_mgr sched cf") auto
  from GetServerClient_namespaceState [of sched cf] g
  have same: "usersNamespaces cf1 = usersNamespaces cf" "clustersHash cf1 = clustersHash cf"
    "clusters cf1 = clusters cf"
    by (simp_all add: namespaceState_def)
  from assms g obtain c nsLists where
    cf': "cf' = (fold setNamespaces nsLists (syncCaches Hash cf1))
                  \<lparr>opsUpdateNamespaces :=
                     Suc (opsUpdateNamespaces (fold setNamespaces nsLists (syncCaches Hash cf1)))\<rparr>"
    by (auto simp: UpdateNamespaces_def Let_def split: option.splits prod.splits)
  show ?thesis
    using setNamespaces_frame [of nsLists "syncCaches Hash cf1"] same g
    by (simp add: cf' syncCaches_def Let_def)
qed

subsection \<open>The aggregated client is never nil\<close>

text \<open>
  C10. \<open>GetImpersonatedClient\<close> with a user and \<open>GetServerClient\<close> return a client that
  is not nil, whatever the clusters and whatever the factories answer. The examples that
  follow are a registry whose only cluster fails, and an empty registry: the client is
  there with an empty pool.
\<close>

theorem client_never_nil:
  "(\<exists>c e cf'. GetImpersonatedClient sched nsSched cf (Some u) = ((Some c, e), cf')) \<and>
   (\<exists>c e cf'. GetServerClient_mgr sched cf = ((Some c, e), cf'))"
  by (simp add: GetImpersonatedClient_def GetServerClient_mgr_def split: prod.splits)

theorem client_never_nil_witness:
  "(\<exists>c e cf'. GetImpersonatedClient id id (exManager\<lparr>clusters := [exB]\<rparr>) (Some exUser) =
                 ((Some c, Some e), cf') \<and> pool c = Map.empty) \<and>
   (\<exists>c e cf'. GetServerClient_mgr id (exManager\<lparr>clusters := [exB]\<rparr>) = ((Some c, Some e), cf') \<and>
              pool c = Map.empty) \<and>
   (\<exists>c cf'. GetServerClient_mgr id (NewClustersManager (\<lambda>cs ns. Inr ns)) = ((Some c, None), cf') \<and>
            pool c = Map.empty)"
  using client_never_nil [of id id "exManager\<lparr>clusters := [exB]\<rparr>" exUser]
        client_never_nil [of id id "NewClustersManager (\<lambda>cs ns. Inr ns)" exUser]
  by (auto simp: GetImpersonatedClient_def GetServerClient_mgr_def fanOut_def clientTask_def
                 getOrCreateClient_def UsersClients_Get_def NewClustersClientsPool_def
                 multierror_Append_def ErrorOrNil_def NewClient_def serverPrincipal_def
                 Let_def ex_defs split: prod.splits)

subsection \<open>GetImpersonatedClient\<close>

text \<open>
  The goroutines of a fan-out work on different keys of the user client cache when the
  clusters have different names: what one resolves or creates does not depend on the
  others having run.
\<close>

lemma getOrCreateClient_other:
  "GetName cl \<noteq> GetName x \<Longrightarrow>
     fst (getOrCreateClient user cl (snd (getOrCreateClient user x cf))) =
     fst (getOrCreateClient user cl cf)"
  by (auto simp: getOrCreateClient_def UsersClients_Get_def UsersClients_Set_def Let_def
           split: option.splits sum.splits)

lemma getOrCreateClient_clusters:
  "clusters (snd (getOrCreateClient user x cf)) = clusters cf"
  by (auto simp: getOrCreateClient_def Let_def split: option.splits sum.splits)

lemma map_filter_cong_set:
  "(\<And>x. x \<in> set xs \<Longrightarrow> f x = g x) \<Longrightarrow> List.map_filter f xs = List.map_filter g xs"
proof (induction xs)
  case Nil
  then show ?case by simp
next
  case (Cons a xs)
  have "List.map_filter f xs = List.map_filter g xs"
    by (rule Cons.IH) (simp add: Cons.prems)
  moreover have "f a = g a" by (simp add: Cons.prems)
  ultimately show ?case by (simp split: option.splits)
qed

lemma clientTask_fold:
  assumes "fold (clientTask user what) xs (cf0, p0, e0) = (cf1, p1, e1)"
    and "distinct (map GetName xs)"
    and "\<forall>cl\<in>set xs. p0 (GetName cl) = None"
  shows "(\<forall>cl\<in>set xs. p1 (GetName cl) = created user cf0 cl) \<and>
         (\<forall>n. n \<notin> GetName ` set xs \<longrightarrow> p1 n = p0 n) \<and>
         e1 = e0 @ List.map_filter (creationError user what cf0) xs \<and>
         clusters cf1 = clusters cf0"
  using assms
proof (induction xs arbitrary: cf0 p0 e0)
  case Nil
  then show ?case by simp
next
  case (Cons x xs)
  obtain cf' p' e' where step: "clientTask user what x (cf0, p0, e0) = (cf', p', e')"
    by (cases "clientTask user what x (cf0, p0, e0)") auto
  have cf': "cf' = snd (getOrCreateClient user x cf0)"
    using step by (auto simp: clientTask_def split: prod.splits sum.splits)
  have px: "p0 (GetName x) = None" using Cons.prems(3) by simp
  have p': "p' = (case created user cf0 x of None \<Rightarrow> p0 | Some c \<Rightarrow> p0(GetName x \<mapsto> c))"
    using step px
    by (auto simp: clientTask_def created_def ClientsPool_Add_def split: prod.splits sum.splits)
  have e': "e' = e0 @ (case creationError user what cf0 x of None \<Rightarrow> [] | Some e \<Rightarrow> [e])"
    using step px
    by (auto simp: clientTask_def creationError_def ClientsPool_Add_def split: prod.splits sum.splits)
  have other: "GetName cl \<noteq> GetName x" if "cl \<in> set xs" for cl
  proof
    assume "GetName cl = GetName x"
    with that have "GetName x \<in> GetName ` set xs" by (metis imageI)
    with Cons.prems(2) show False by simp
  qed
  have rest: "fold (clientTask user what) xs (cf', p', e') = (cf1, p1, e1)"
    using Cons.prems(1) step by simp
  have d: "distinct (map GetName xs)" using Cons.prems(2) by simp
  have free: "\<forall>cl\<in>set xs. p' (GetName cl) = None"
    using Cons.prems(3) other by (auto simp: p' split: option.splits)
  note ih = Cons.IH [OF rest d free]
  have same_s: "created user cf' cl = created user cf0 cl" if "cl \<in> set xs" for cl
    using other [OF that] by (simp add: created_def cf' getOrCreateClient_other)
  have same_f: "creationError user what cf' cl = creationError user what cf0 cl" if "cl \<in> set xs" for cl
    using other [OF that] by (simp add: creationError_def cf' getOrCreateClient_other)
  have nx: "GetName x \<notin> GetName ` set xs" using Cons.prems(2) by auto
  have 1: "\<forall>cl\<in>set (x # xs). p1 (GetName cl) = created user cf0 cl"
  proof
    fix cl assume "cl \<in> set (x # xs)"
    then consider "cl = x" | "cl \<in> set xs" by auto
    then show "p1 (GetName cl) = created user cf0 cl"
    proof cases
      case 1
      with ih nx have "p1 (GetName cl) = p' (GetName x)" by simp
      also have "\<dots> = created user cf0 x" using px by (simp add: p' split: option.splits)
      finally show ?thesis using 1 by simp
    next
      case 2
      with ih same_s show ?thesis by simp
    qed
  qed
  have 2: "\<forall>n. n \<notin> GetName ` set (x # xs) \<longrightarrow> p1 n = p0 n"
    using ih by (auto simp: p' split: option.splits)
  have 3: "e1 = e0 @ List.map_filter (creationError user what cf0) (x # xs)"
    using ih map_filter_cong_set [of xs "creationError user what cf'" "creationError user what cf0"] same_f
    by (simp add: e' split: option.splits)
  have 4: "clusters cf1 = clusters cf0"
    using ih by (simp add: cf' getOrCreateClient_clusters)
  from 1 2 3 4 show ?case by blast
qed


lemma multierror_fold_plain:
  "\<forall>e\<in>set es. \<forall>l. e \<noteq> MultiError l \<Longrightarrow>
     fold (\<lambda>err result. multierror_Append result err) es acc = acc @ es"
  by (induction es arbitrary: acc) (auto simp: multierror_Append_def split: error.splits)

lemma set_map_filter: "set (List.map_filter f xs) = {y. \<exists>x\<in>set xs. f x = Some y}"
  by (induction xs) (auto split: option.splits)

lemma map_filter_Nil_iff: "List.map_filter f xs = [] \<longleftrightarrow> (\<forall>x\<in>set xs. f x = None)"
  by (induction xs) (auto split: option.splits)

lemma creationError_not_multi: "creationError user what cf cl = Some e \<Longrightarrow> e \<noteq> MultiError l"
  by (auto simp: creationError_def split: sum.splits)

lemma creationError_None_iff: "creationError user what cf cl = None \<longleftrightarrow> created user cf cl \<noteq> None"
  by (auto simp: creationError_def created_def split: sum.splits)

lemma ErrorOrNil_None_iff: "ErrorOrNil es = None \<longleftrightarrow> es = []"
  by (cases es) (auto simp: ErrorOrNil_def)

lemma fanOut_spec:
  assumes "mset (sched (clusters cf)) = mset (clusters cf)"
    and "distinct (map GetName (clusters cf))"
    and "fanOut sched user what cf = (cf1, p, result)"
  shows "(\<forall>cl\<in>set (clusters cf). p (GetName cl) = created user cf cl) \<and>
         dom p \<subseteq> GetName ` set (clusters cf) \<and>
         result = List.map_filter (creationError user what cf) (sched (clusters cf)) \<and>
         clusters cf1 = clusters cf"
proof -
  let ?xs = "sched (clusters cf)"
  obtain cf' p' e' where
    f: "fold (clientTask user what) ?xs (cf, NewClustersClientsPool, []) = (cf', p', e')"
    by (cases "fold (clientTask user what) ?xs (cf, NewClustersClientsPool, [])") auto
  have s: "set ?xs = set (clusters cf)" using assms(1) by (rule mset_eq_setD)
  have "mset (map GetName ?xs) = mset (map GetName (clusters cf))"
    using assms(1) by (metis mset_map)
  then have d: "distinct (map GetName ?xs)"
    using assms(2) by (metis mset_eq_imp_distinct_iff)
  have "\<forall>cl\<in>set ?xs. NewClustersClientsPool (GetName cl) = None"
    by (simp add: NewClustersClientsPool_def)
  note inv = clientTask_fold [OF f d this]
  have e': "e' = List.map_filter (creationError user what cf) ?xs" using inv by simp
  have plain: "\<forall>e\<in>set e'. \<forall>l. e \<noteq> MultiError l"
    unfolding e' set_map_filter using creationError_not_multi by blast
  have res: "cf1 = cf'" "p = p'" "result = e'"
    using assms(3) f multierror_fold_plain [OF plain, of "[]"] by (simp_all add: fanOut_def)
  have dom: "dom p \<subseteq> GetName ` set (clusters cf)"
  proof
    fix n assume "n \<in> dom p"
    then have "p' n \<noteq> None" using res by auto
    moreover have "n \<notin> GetName ` set ?xs \<longrightarrow> p' n = None"
      using inv by (simp add: NewClustersClientsPool_def)
    ultimately show "n \<in> GetName ` set (clusters cf)" using s by auto
  qed
  show ?thesis using inv dom s by (simp add: res e')
qed

text \<open>
  C1. For a user that is not nil, clusters with pairwise different names and any order
  in which the goroutines finish, \<open>GetImpersonatedClient\<close> returns, after all of them
  have run, a client whose pool maps the name of each known cluster whose client was
  resolved or created to that client and holds nothing else, together with an error that
  is not nil exactly when the creation failed for some cluster; the error is the
  \<open>multierror\<close> of one \<open>ClientError\<close> per failed cluster, carrying that cluster's name, in
  the order in which the goroutines finished.
\<close>

theorem GetImpersonatedClient_aggregates:
  assumes "mset (sched (clusters cf)) = mset (clusters cf)"
    and "distinct (map GetName (clusters cf))"
  shows "\<exists>c e cf'.
           GetImpersonatedClient sched nsSched cf (Some u) = ((Some c, e), cf') \<and>
           (\<forall>cl\<in>set (clusters cf). pool c (GetName cl) = created (Some u) cf cl) \<and>
           dom (pool c) \<subseteq> GetName ` set (clusters cf) \<and>
           (e \<noteq> None \<longleftrightarrow> (\<exists>cl\<in>set (clusters cf). created (Some u) cf cl = None)) \<and>
           e = ErrorOrNil
                 (List.map_filter
                    (creationError (Some u) ''failed creating user client to pool: '' cf)
                    (sched (clusters cf)))"
proof -
  let ?what = "''failed creating user client to pool: ''"
  obtain cf1 p result where fo: "fanOut sched (Some u) ?what cf = (cf1, p, result)"
    by (cases "fanOut sched (Some u) ?what cf") auto
  obtain ns cf2 where nl: "userNsList nsSched cf1 u = (ns, cf2)"
    by (cases "userNsList nsSched cf1 u") auto
  note spec = fanOut_spec [OF assms fo]
  have g: "GetImpersonatedClient sched nsSched cf (Some u) =
             ((Some (NewClient p ns), ErrorOrNil result), cf2)"
    by (simp add: GetImpersonatedClient_def fo nl)
  have s: "set (sched (clusters cf)) = set (clusters cf)" using assms(1) by (rule mset_eq_setD)
  have "ErrorOrNil result \<noteq> None \<longleftrightarrow> (\<exists>cl\<in>set (clusters cf). created (Some u) cf cl = None)"
    using spec s by (auto simp: ErrorOrNil_None_iff map_filter_Nil_iff creationError_None_iff)
  with spec g show ?thesis by (simp add: NewClient_def)
qed


theorem GetImpersonatedClient_aggregates_witness:
  "\<exists>c cf'. GetImpersonatedClient rev id (exManager\<lparr>clusters := [exA, exB, exC]\<rparr>) (Some exUser) =
            ((Some c,
              Some (MultiError
                [ClientError ''b''
                   (Wrap ''failed creating user client to pool: ''
                      (Wrap ''failed creating client for cluster=b: '' (New ''down'')))])),
             cf') \<and>
          pool c ''a'' = Some 2 \<and> pool c ''b'' = None \<and> pool c ''c'' = Some 4"
  using GetImpersonatedClient_aggregates
          [of rev "exManager\<lparr>clusters := [exA, exB, exC]\<rparr>" id exUser]
  by (auto simp: ex_defs created_def creationError_def getOrCreateClient_def
                 UsersClients_Get_def ErrorOrNil_def Let_def)

subsection \<open>The namespace loop waits for the first cluster refresh\<close>

text \<open>A call of \<open>UpdateClusters\<close> that returns leaves what the namespace refresh writes alone.\<close>

lemma Notify_namespaceState:
  "Notify w a r cf = Returns cf' \<Longrightarrow> namespaceState cf' = namespaceState cf"
  by (auto simp: Notify_def namespaceState_def split: option.splits if_splits)

lemma notifyWatchers_namespaceState:
  "notifyWatchers ws a r cf = Returns cf' \<Longrightarrow> namespaceState cf' = namespaceState cf"
proof (induction ws arbitrary: cf)
  case Nil
  then show ?case by simp
next
  case (Cons w ws)
  from Cons.prems obtain cf1 where n: "Notify w a r cf = Returns cf1"
    and rest: "notifyWatchers ws a r cf1 = Returns cf'"
    by (auto split: exec.splits)
  from Cons.IH [OF rest] Notify_namespaceState [OF n] show ?case by simp
qed

lemma UpdateClusters_namespaceState:
  assumes "UpdateClusters fetched cf = Returns (err, cf')"
  shows "namespaceState cf' = namespaceState cf"
proof (cases fetched)
  case (Inl e)
  with assms show ?thesis by (simp add: UpdateClusters_def)
next
  case (Inr cs)
  let ?cf1 = "cf\<lparr>clusters := cs, opsUpdateClusters := Suc (opsUpdateClusters cf),
                 opsClustersCount := length cs\<rparr>"
  have base: "namespaceState ?cf1 = namespaceState cf" by (simp add: namespaceState_def)
  from assms Inr consider "cf' = ?cf1"
    | a r where "notifyWatchers (watchers ?cf1) a r ?cf1 = Returns cf'"
    by (auto simp: UpdateClusters_def Let_def split: prod.splits if_splits exec.splits)
  then show ?thesis
  proof cases
    case 1
    with base show ?thesis by simp
  next
    case 2
    from notifyWatchers_namespaceState [OF 2] base show ?thesis by simp
  qed
qed

lemma loadInv_step:
  assumes "loadInv cf s" and "step Hash s s'"
  shows "loadInv cf s'"
  using assms(2,1)
proof cases
  case (first_update fetched err cf')
  with assms(1) UpdateClusters_namespaceState [OF first_update(3)] show ?thesis
    by (simp add: loadInv_def)
next
  case initial_load
  with assms(1) show ?thesis by (auto simp: loadInv_def)
next
  case (poll_clusters fetched err cf')
  with assms(1) show ?thesis by (auto simp: loadInv_def)
next
  case (poll_namespaces sched ClusteredList err cf')
  with assms(1) show ?thesis by (auto simp: loadInv_def split: clustersPc.splits)
next
  case (drain w ch u ch')
  with assms(1) show ?thesis
    by (auto simp: loadInv_def namespaceState_def split: clustersPc.splits)
next
  case subscribe
  with assms(1) show ?thesis
    by (auto simp: loadInv_def namespaceState_def Subscribe_def Let_def split: clustersPc.splits)
next
  case (unsubscribe w cf')
  then have "namespaceState cf' = namespaceState (manager s)"
    by (auto simp: Unsubscribe_def RemoveWatcher_def namespaceState_def Let_def
             split: option.splits if_splits)
  with unsubscribe assms(1) show ?thesis
    by (auto simp: loadInv_def split: clustersPc.splits)
qed

lemma loadInv_run: "run Hash cf s \<Longrightarrow> loadInv cf s"
proof (induction rule: run.induct)
  case started
  show ?case by (simp add: loadInv_def Start_def)
next
  case (stepped s s')
  from stepped.IH stepped.hyps(2) show ?case by (rule loadInv_step)
qed


text \<open>A call of \<open>UpdateNamespaces\<close> always returns: the poll of the namespace loop can always step.\<close>

lemma UpdateNamespaces_returns:
  "\<exists>err cf'. UpdateNamespaces Hash sched ClusteredList cf = Returns (err, cf')"
  by (simp add: UpdateNamespaces_def GetServerClient_mgr_def Let_def split: prod.splits)

text \<open>
  C8. In every state the two loops reach after \<open>Start\<close>: once \<open>watchNamespaces\<close> polls,
  the trace begins with the return of one \<open>UpdateClusters\<close> call (with or without an
  error) followed by the signal on \<open>initialClustersLoad\<close>, and the signal occurs once;
  while \<open>watchNamespaces\<close> still waits, no signal and no \<open>UpdateNamespaces\<close> call is in
  the trace and the namespace caches, the recorded hash and the namespace metrics are
  those of the start; and whatever precedes an \<open>UpdateNamespaces\<close> call in the trace
  begins with the first \<open>UpdateClusters\<close> return and the signal.
\<close>

theorem namespaces_wait_for_initial_load:
  assumes "run Hash cf s"
  shows "(watchNamespaces s = PollNamespaces \<longrightarrow>
            (\<exists>e rest. trace s = UpdateClustersReturned e # InitialClustersLoad # rest \<and>
                      InitialClustersLoad \<notin> set rest)) \<and>
         (watchNamespaces s = AwaitLoad \<longrightarrow>
            InitialClustersLoad \<notin> set (trace s) \<and>
            (\<forall>e. UpdateNamespacesReturned e \<notin> set (trace s)) \<and>
            namespaceState (manager s) = namespaceState cf) \<and>
         (\<forall>pre e post. trace s = pre @ UpdateNamespacesReturned e # post \<longrightarrow>
            (\<exists>e0 mid. pre = UpdateClustersReturned e0 # InitialClustersLoad # mid))"
proof -
  from assms have inv: "loadInv cf s" by (rule loadInv_run)
  have 1: "watchNamespaces s = PollNamespaces \<longrightarrow>
            (\<exists>e rest. trace s = UpdateClustersReturned e # InitialClustersLoad # rest \<and>
                      InitialClustersLoad \<notin> set rest)"
    using inv by (auto simp: loadInv_def split: clustersPc.splits)
  have 2: "watchNamespaces s = AwaitLoad \<longrightarrow>
            InitialClustersLoad \<notin> set (trace s) \<and>
            (\<forall>e. UpdateNamespacesReturned e \<notin> set (trace s)) \<and>
            namespaceState (manager s) = namespaceState cf"
    using inv by (auto simp: loadInv_def split: clustersPc.splits)
  have 3: "\<exists>e0 mid. pre = UpdateClustersReturned e0 # InitialClustersLoad # mid"
    if t: "trace s = pre @ UpdateNamespacesReturned e # post" for pre e post
  proof -
    from t have mem: "UpdateNamespacesReturned e \<in> set (trace s)" by simp
    from inv mem obtain e1 rest where
      "trace s = UpdateClustersReturned e1 # InitialClustersLoad # rest"
      by (cases "watchClusters s") (auto simp: loadInv_def)
    with t have
      shape: "pre @ UpdateNamespacesReturned e # post =
                UpdateClustersReturned e1 # InitialClustersLoad # rest"
      by simp
    show ?thesis
    proof (cases pre)
      case Nil
      with shape show ?thesis by simp
    next
      case (Cons a pre')
      with shape have a: "a = UpdateClustersReturned e1"
        and rest: "pre' @ UpdateNamespacesReturned e # post = InitialClustersLoad # rest"
        by simp_all
      from rest obtain mid where "pre' = InitialClustersLoad # mid"
        by (cases pre') auto
      with Cons a show ?thesis by simp
    qed
  qed
  from 1 2 3 show ?thesis by blast
qed

text \<open>A run in which the namespace loop gets to list the namespaces of a cluster.\<close>

lemma exRun:
  "\<exists>s. run exHash (NewClustersManager (\<lambda>cs ns. Inr ns)) s \<and>
       watchNamespaces s = PollNamespaces \<and>
       trace s = [UpdateClustersReturned None, InitialClustersLoad, UpdateNamespacesReturned None] \<and>
       clustersNamespaces (manager s) ''a'' = Some [''default'']"
proof -
  let ?cf0 = "NewClustersManager (\<lambda>cs ns. Inr ns)"
  let ?cf1 = "?cf0\<lparr>clusters := [exA], opsUpdateClusters := Suc 0, opsClustersCount := Suc 0\<rparr>"
  let ?list = "\<lambda>sc::clustersClient. (None::error option, [(''a'', [Some [''default'']])])"
  let ?s0 = "Start ?cf0"
  let ?s1 = "?s0\<lparr>watchClusters := SignalLoad, manager := ?cf1,
                  trace := trace ?s0 @ [UpdateClustersReturned None]\<rparr>"
  let ?s2 = "?s1\<lparr>watchClusters := PollClusters, watchNamespaces := PollNamespaces,
                  trace := trace ?s1 @ [InitialClustersLoad]\<rparr>"
  have r0: "run exHash ?cf0 ?s0" by (rule started)
  have u1: "UpdateClusters (Inr [exA]) (manager ?s0) = Returns (None, ?cf1)"
    by (simp add: UpdateClusters_def Clusters_Set_def Start_def NewClustersManager_def)
  have r1: "run exHash ?cf0 ?s1"
    by (rule stepped [OF r0 first_update [OF _ u1]]) (simp add: Start_def)
  have r2: "run exHash ?cf0 ?s2"
    by (rule stepped [OF r1 initial_load]) (simp_all add: Start_def)
  obtain cf3 where u3: "UpdateNamespaces exHash id ?list (manager ?s2) = Returns (None, cf3)"
    and ns: "clustersNamespaces cf3 ''a'' = Some [''default'']"
    by (simp add: UpdateNamespaces_def GetServerClient_mgr_def fanOut_def clientTask_def
                  getOrCreateClient_def UsersClients_Get_def UsersClients_Set_def
                  ClientsPool_Add_def NewClustersClientsPool_def multierror_Append_def
                  ErrorOrNil_def syncCaches_def setNamespaces_def serverPrincipal_def
                  NewClient_def Let_def ex_defs)
  let ?s3 = "?s2\<lparr>manager := cf3, trace := trace ?s2 @ [UpdateNamespacesReturned None]\<rparr>"
  have r3: "run exHash ?cf0 ?s3"
    by (rule stepped [OF r2 poll_namespaces [OF _ _ u3]]) simp_all
  show ?thesis
    by (rule exI [of _ ?s3]) (use r3 ns in \<open>simp add: Start_def\<close>)
qed

theorem namespaces_wait_for_initial_load_witness:
  "(\<exists>s. run exHash (NewClustersManager (\<lambda>cs ns. Inr ns)) s \<and>
        watchNamespaces s = PollNamespaces \<and>
        trace s = [UpdateClustersReturned None, InitialClustersLoad, UpdateNamespacesReturned None] \<and>
        (\<exists>e rest. trace s = UpdateClustersReturned e # InitialClustersLoad # rest \<and>
                  InitialClustersLoad \<notin> set rest)) \<and>
   watchNamespaces (Start exManager) = AwaitLoad \<and>
   namespaceState (manager (Start exManager)) = namespaceState exManager"
proof -
  from exRun obtain s where r: "run exHash (NewClustersManager (\<lambda>cs ns. Inr ns)) s"
    and w: "watchNamespaces s = PollNamespaces"
    and t: "trace s = [UpdateClustersReturned None, InitialClustersLoad, UpdateNamespacesReturned None]"
    by blast
  from namespaces_wait_for_initial_load [OF r] w
  have "\<exists>e rest. trace s = UpdateClustersReturned e # InitialClustersLoad # rest \<and>
                 InitialClustersLoad \<notin> set rest"
    by blast
  with r w t have 1: "\<exists>s. run exHash (NewClustersManager (\<lambda>cs ns. Inr ns)) s \<and>
        watchNamespaces s = PollNamespaces \<and>
        trace s = [UpdateClustersReturned None, InitialClustersLoad, UpdateNamespacesReturned None] \<and>
        (\<exists>e rest. trace s = UpdateClustersReturned e # InitialClustersLoad # rest \<and>
                  InitialClustersLoad \<notin> set rest)"
    by blast
  have a: "watchNamespaces (Start exManager) = AwaitLoad" by (simp add: Start_def)
  have "run exHash exManager (Start exManager)" by (rule started)
  from namespaces_wait_for_initial_load [OF this] a
  have "namespaceState (manager (Start exManager)) = namespaceState exManager" by blast
  with 1 a show ?thesis by blast
qed

end
